theory Spec2Isabelle
  imports Main
begin

section \<open>The page-by-page document analysis pipeline of streamlit\_app.py\<close>

text \<open>
  The application uploads a PDF, renders its pages to PNG images, sends every image with a
  prompt to a remote model and shows the returned text; then it asks the model once more
  for a summary of all pages and offers a report for download.

  The remote model, the PDF decoder, the file system and the Streamlit widgets are outside
  the program. They are modelled as follows.
  \<^item> A Python exception is a value \<open>Exn m\<close>, where \<open>m\<close> is what \<open>str(e)\<close> returns.
  \<^item> The capabilities the program calls (\<open>fitz.open\<close>, the rendering of one page,
    \<open>client.models.generate_content\<close>) are the fields of an environment record; each
    returns \<open>Inl e\<close> when it raises \<open>e\<close>.
  \<^item> Everything the program changes outside its own variables (the temporary files, the
    widgets it draws, the number of calls it has made to the remote model) is a record
    \<open>world\<close>, passed through every function and returned updated.
\<close>

subsection \<open>Values\<close>

type_synonym bytes = string

datatype exn = Exn string

fun str_exn :: "exn \<Rightarrow> string" where
  "str_exn (Exn m) = m"

text \<open>The elements of the \<open>contents\<close> list given to \<open>generate_content\<close>: a text or a PIL image
  (identified with the PNG bytes it was opened from).\<close>

datatype content = Text string | Img bytes

text \<open>One entry of \<open>results\<close>: the dictionary with the keys \<open>page_num\<close>, \<open>analysis\<close>, \<open>image\<close>.\<close>

record analysis_result =
  page_num :: nat
  analysis :: string
  image :: bytes

text \<open>An opened document: its pages in order. A page is what rendering it gives: the PNG
  bytes, or the exception that one of \<open>load_page\<close>, \<open>get_pixmap\<close>, \<open>tobytes\<close>, \<open>Image.open\<close>
  raises (the four calls follow one another with no effect in between, and an exception of
  any of them reaches the same handler).\<close>

type_synonym pdf_doc = "(exn + bytes) list"

text \<open>What the program draws and shows, in the order of the calls.\<close>

datatype ui_event =
    ProgressBar nat
  | StatusText string
  | Progress nat nat
  | StError string
  | Tabs "string list"
  | StImage bytes string
  | Markdown string
  | DownloadButton string string string string

record world =
  fs :: "(nat \<times> bytes) list"
  ui :: "ui_event list"
  calls :: nat

text \<open>The external capabilities. \<open>generate_content\<close> takes the number of calls made before
  this one, so that a service whose answers change from call to call (quota, time-outs) is
  covered; a deterministic service ignores it.\<close>

record env =
  fitz_open :: "bytes \<Rightarrow> exn + pdf_doc"
  generate_content :: "nat \<Rightarrow> string \<Rightarrow> content list \<Rightarrow> exn + string"

subsection \<open>Effects\<close>

definition st_emit :: "ui_event \<Rightarrow> world \<Rightarrow> world" where
  "st_emit ev w = w\<lparr>ui := ui w @ [ev]\<rparr>"

text \<open>\<open>tempfile.NamedTemporaryFile(delete=False)\<close> followed by \<open>write\<close>: a file under a name
  that no existing file has; it stays after the \<open>with\<close> block.\<close>

definition fresh_path :: "(nat \<times> bytes) list \<Rightarrow> nat" where
  "fresh_path files = Suc (fold max (map fst files) 0)"

definition named_temporary_file :: "bytes \<Rightarrow> world \<Rightarrow> nat \<times> world" where
  "named_temporary_file data w =
     (let tmp_path = fresh_path (fs w) in (tmp_path, w\<lparr>fs := fs w @ [(tmp_path, data)]\<rparr>))"

text \<open>\<open>os.unlink\<close>: removes the file; raises when there is none.\<close>

definition os_unlink :: "nat \<Rightarrow> world \<Rightarrow> exn + world" where
  "os_unlink p w =
     (if p \<in> fst ` set (fs w) then Inr (w\<lparr>fs := filter (\<lambda>f. fst f \<noteq> p) (fs w)\<rparr>)
      else Inl (Exn ''No such file or directory''))"

text \<open>\<open>fitz.open(tmp_path)\<close> reads the file it is given.\<close>

definition open_path :: "env \<Rightarrow> nat \<Rightarrow> world \<Rightarrow> exn + pdf_doc" where
  "open_path E p w =
     (case map_of (fs w) p of
        None \<Rightarrow> Inl (Exn ''no such file'')
      | Some data \<Rightarrow> fitz_open E data)"

text \<open>The rendering of the page with the 0-based index \<open>page_no\<close> (the loop variable
  \<open>page_num\<close> of the source; the record field has that name here); \<open>load_page\<close> raises
  out of range.\<close>

definition render_page :: "pdf_doc \<Rightarrow> nat \<Rightarrow> exn + bytes" where
  "render_page doc page_no =
     (if page_no < length doc then doc ! page_no else Inl (Exn ''page not in document''))"

text \<open>One call of the remote model: the answer depends on the calls made so far, and the
  call is counted.\<close>

definition call_model :: "env \<Rightarrow> string \<Rightarrow> content list \<Rightarrow> world \<Rightarrow> (exn + string) \<times> world" where
  "call_model E model contents w =
     (generate_content E (calls w) model contents, w\<lparr>calls := Suc (calls w)\<rparr>)"

text \<open>Python's \<open>a / b\<close> on integers raises on a zero divisor. The quotient is a float; the
  model keeps the two integers it is the quotient of.\<close>

definition true_div :: "nat \<Rightarrow> int \<Rightarrow> exn + nat \<times> nat" where
  "true_div a b = (if b = 0 then Inl (Exn ''division by zero'') else Inr (a, nat b))"

subsection \<open>process\_pdf\<close>

definition pages_to_analyze :: "int \<Rightarrow> int \<Rightarrow> int" where
  "pages_to_analyze max_pages total_pages =
     (if max_pages = 0 then total_pages else min max_pages total_pages)"

text \<open>The \<open>try\<close> inside the loop: the entry appended for one page.\<close>

definition page_entry :: "nat \<Rightarrow> bytes \<Rightarrow> exn + string \<Rightarrow> analysis_result" where
  "page_entry page_no img_bytes response =
     (case response of
        Inr text \<Rightarrow> \<lparr>page_num = page_no + 1, analysis = text, image = img_bytes\<rparr>
      | Inl e \<Rightarrow> \<lparr>page_num = page_no + 1,
                  analysis = ''Error analyzing this page: '' @ str_exn e,
                  image = img_bytes\<rparr>)"

text \<open>Python's \<open>str\<close> of a non-negative integer.\<close>

fun str_nat :: "nat \<Rightarrow> string" where
  "str_nat n =
     (if n < 10 then [char_of (48 + n)] else str_nat (n div 10) @ [char_of (48 + n mod 10)])"

declare str_nat.simps [simp del]

text \<open>The body of \<open>for page_num in range(pages_to_analyze)\<close>, over the indices that are
  left. An exception that the loop does not catch ends it and is returned with the world
  as it is then; the entries collected so far are lost with the frame.\<close>

fun analyze_pages ::
  "env \<Rightarrow> string \<Rightarrow> string \<Rightarrow> pdf_doc \<Rightarrow> int \<Rightarrow> nat list \<Rightarrow> analysis_result list \<Rightarrow> world
     \<Rightarrow> (exn + analysis_result list) \<times> world" where
  "analyze_pages E model prompt doc n [] results w = (Inr results, w)"
| "analyze_pages E model prompt doc n (page_no # rest) results w =
     (let w1 = st_emit (StatusText (''Processing page '' @ str_nat (page_no + 1) @ '' of ''
                 @ str_nat (nat n) @ ''...'')) w
      in case render_page doc page_no of
           Inl e \<Rightarrow> (Inl e, w1)
         | Inr img_bytes \<Rightarrow>
             (let (response, w2) = call_model E model [Text prompt, Img img_bytes] w1;
                  results' = results @ [page_entry page_no img_bytes response]
              in case true_div (page_no + 1) n of
                   Inl e \<Rightarrow> (Inl e, w2)
                 | Inr (a, b) \<Rightarrow>
                     analyze_pages E model prompt doc n rest results'
                       (st_emit (Progress a b) w2)))"

text \<open>\<open>range(n)\<close> is empty for a negative \<open>n\<close>.\<close>

definition range_py :: "int \<Rightarrow> nat list" where
  "range_py n = [0 ..< nat n]"

text \<open>The \<open>try\<close> block of \<open>process_pdf\<close>. \<open>doc.close()\<close> changes nothing that is modelled.\<close>

definition process_pdf_body ::
  "env \<Rightarrow> string \<Rightarrow> nat \<Rightarrow> int \<Rightarrow> string \<Rightarrow> world \<Rightarrow> (exn + analysis_result list) \<times> world" where
  "process_pdf_body E model tmp_path max_pages prompt w =
     (case open_path E tmp_path w of
        Inl e \<Rightarrow> (Inl e, w)
      | Inr doc \<Rightarrow>
          (let total_pages = int (length doc);
               n = pages_to_analyze max_pages total_pages;
               w1 = st_emit (ProgressBar 0) w;
               (r, w2) = analyze_pages E model prompt doc n (range_py n) [] w1
           in case r of
                Inl e \<Rightarrow> (Inl e, w2)
              | Inr results \<Rightarrow>
                  (let w3 = st_emit (StatusText ''Processing complete!'') w2
                   in case os_unlink tmp_path w3 of
                        Inl e \<Rightarrow> (Inl e, w3)
                      | Inr w4 \<Rightarrow> (Inr results, w4))))"

text \<open>\<open>process_pdf\<close>: the temporary copy, the \<open>try\<close> block, and the handler that shows the
  error and returns the empty list.\<close>

definition process_pdf ::
  "env \<Rightarrow> string \<Rightarrow> bytes \<Rightarrow> int \<Rightarrow> string \<Rightarrow> world \<Rightarrow> analysis_result list \<times> world" where
  "process_pdf E model pdf_file max_pages prompt w =
     (let (tmp_path, w1) = named_temporary_file pdf_file w;
          (r, w2) = process_pdf_body E model tmp_path max_pages prompt w1
      in case r of
           Inr results \<Rightarrow> (results, w2)
         | Inl e \<Rightarrow> ([], st_emit (StError (''Error processing PDF: '' @ str_exn e)) w2))"

subsection \<open>The summary and the report\<close>

text \<open>Python's \<open>sep.join(xs)\<close>.\<close>

fun join_str :: "string \<Rightarrow> string list \<Rightarrow> string" where
  "join_str sep [] = []"
| "join_str sep [x] = x"
| "join_str sep (x # y # ys) = x @ sep @ join_str sep (y # ys)"

text \<open>\<open>SUMMARY_PROMPT_TEMPLATE\<close>: the text before the field \<open>{all_analysis}\<close>, the field, and
  the text after it.\<close>

definition template_head :: string where
  "template_head =
     ''\<newline>Create a comprehensive summary of this declassified JFK document based on the following page-by-page analysis:\<newline>\<newline>''"

definition template_tail :: string where
  "template_tail =
     ''\<newline>\<newline>Your summary should:\<newline>'' @
     ''1. Identify the document type, date, and originating agency\<newline>'' @
     ''2. Explain the primary subject matter and purpose\<newline>'' @
     ''3. List all key individuals mentioned and their roles\<newline>'' @
     ''4. Highlight the most significant revelations or intelligence\<newline>'' @
     ''5. Note any apparent redactions or missing information\<newline>'' @
     ''6. Explain connections to the Kennedy assassination investigation\<newline>'' @
     ''7. Identify any notable inconsistencies or areas requiring further research\<newline>'' @
     ''\<newline>Format your summary with clear headings and bullet points for key findings.\<newline>''"

definition SUMMARY_PROMPT_TEMPLATE :: string where
  "SUMMARY_PROMPT_TEMPLATE = template_head @ ''{all_analysis}'' @ template_tail"

text \<open>Python's \<open>template.format(**kw)\<close> for templates whose fields are plain names: \<open>{{\<close> and
  \<open>}}\<close> stand for one brace, \<open>{name}\<close> is replaced by the value of \<open>name\<close>, which is not read
  again. The second argument is the name of the field being read, if any.\<close>

definition prepend :: "string \<Rightarrow> exn + string \<Rightarrow> exn + string" where
  "prepend a r = (case r of Inl e \<Rightarrow> Inl e | Inr b \<Rightarrow> Inr (a @ b))"

fun format_py :: "(string \<times> string) list \<Rightarrow> string option \<Rightarrow> string \<Rightarrow> exn + string" where
  "format_py kw None [] = Inr []"
| "format_py kw (Some f) [] = Inl (Exn ''expected } before end of string'')"
| "format_py kw None (c # cs) =
     (if c = CHR ''{'' then
        (case cs of
           [] \<Rightarrow> Inl (Exn ''Single { encountered in format string'')
         | d # ds \<Rightarrow>
             if d = CHR ''{'' then prepend [c] (format_py kw None ds)
             else format_py kw (Some []) cs)
      else if c = CHR ''}'' then
        (case cs of
           [] \<Rightarrow> Inl (Exn ''Single } encountered in format string'')
         | d # ds \<Rightarrow>
             if d = CHR ''}'' then prepend [c] (format_py kw None ds)
             else Inl (Exn ''Single } encountered in format string''))
      else prepend [c] (format_py kw None cs))"
| "format_py kw (Some f) (c # cs) =
     (if c = CHR ''}'' then
        (case map_of kw f of
           None \<Rightarrow> Inl (Exn f)
         | Some v \<Rightarrow> prepend v (format_py kw None cs))
      else format_py kw (Some (f @ [c])) cs)"

text \<open>Line 234: the text of all pages.\<close>

definition all_analysis_of :: "analysis_result list \<Rightarrow> string" where
  "all_analysis_of results =
     join_str ''\<newline>\<newline>''
       (map (\<lambda>r. ''**Page '' @ str_nat (page_num r) @ ''**:\<newline>'' @ analysis r) results)"

text \<open>Line 238: the prompt of the summary.\<close>

definition summary_prompt_of :: "analysis_result list \<Rightarrow> exn + string" where
  "summary_prompt_of results =
     format_py [(''all_analysis'', all_analysis_of results)] None SUMMARY_PROMPT_TEMPLATE"

text \<open>Lines 206 to 227: the tabs, one per entry, each with the image, the text and the
  download button of its page.\<close>

definition show_page :: "analysis_result \<Rightarrow> world \<Rightarrow> world" where
  "show_page r w =
     st_emit (DownloadButton ''Download Analysis''
                (''# Analysis of Page '' @ str_nat (page_num r) @ ''\<newline>\<newline>'' @ analysis r)
                (''analysis_page_'' @ str_nat (page_num r) @ ''.txt'') ''text/plain'')
       (st_emit (Markdown (analysis r))
          (st_emit (Markdown ''### AI Analysis'')
             (st_emit (StImage (image r) (''Page '' @ str_nat (page_num r))) w)))"

definition show_tabs :: "analysis_result list \<Rightarrow> world \<Rightarrow> world" where
  "show_tabs results w =
     fold show_page results
       (st_emit (Tabs (map (\<lambda>r. ''Page '' @ str_nat (page_num r)) results)) w)"

text \<open>Lines 230 to 255: the summary. Everything from the formatting of the prompt to the
  download button of the report is inside the \<open>try\<close>.\<close>

definition document_summary ::
  "env \<Rightarrow> string \<Rightarrow> string \<Rightarrow> analysis_result list \<Rightarrow> world \<Rightarrow> world" where
  "document_summary E model name results w =
     (let w1 = st_emit (Markdown ''## Document Summary'') (st_emit (Markdown ''---'') w);
          all_analysis = all_analysis_of results
      in case summary_prompt_of results of
           Inl e \<Rightarrow> st_emit (StError (''Error generating summary: '' @ str_exn e)) w1
         | Inr summary_prompt \<Rightarrow>
             (let (summary_response, w2) = call_model E model [Text summary_prompt] w1
              in case summary_response of
                   Inl e \<Rightarrow> st_emit (StError (''Error generating summary: '' @ str_exn e)) w2
                 | Inr text \<Rightarrow>
                     st_emit (DownloadButton ''Download Full Report''
                                (''# JFK Document Analysis: '' @ name @ ''\<newline>\<newline>## Summary\<newline>\<newline>''
                                   @ text @ ''\<newline>\<newline>## Page-by-Page Analysis\<newline>\<newline>''
                                   @ all_analysis)
                                (''jfk_analysis_'' @ name @ ''.txt'') ''text/plain'')
                       (st_emit (Markdown text) w2)))"

text \<open>Lines 204 to 255: \<open>if results:\<close> shows nothing for an empty list.\<close>

definition display_results ::
  "env \<Rightarrow> string \<Rightarrow> string \<Rightarrow> analysis_result list \<Rightarrow> world \<Rightarrow> world" where
  "display_results E model name results w =
     (if results \<noteq> [] then document_summary E model name results (show_tabs results w)
      else w)"

text \<open>Lines 200 to 255: the button \<open>Analyze Document\<close>.\<close>

definition analyze_document ::
  "env \<Rightarrow> string \<Rightarrow> string \<Rightarrow> bytes \<Rightarrow> int \<Rightarrow> string \<Rightarrow> world \<Rightarrow> world" where
  "analyze_document E model name pdf_file max_pages user_prompt w =
     (let (results, w1) = process_pdf E model pdf_file max_pages user_prompt w
      in display_results E model name results w1)"

subsection \<open>Quantities of a run, and a small instance to run the definitions on\<close>

text \<open>The number of passes of the loop: the length of \<open>range(pages_to_analyze)\<close>.\<close>

definition pages_run :: "int \<Rightarrow> pdf_doc \<Rightarrow> nat" where
  "pages_run L doc = nat (pages_to_analyze L (int (length doc)))"

text \<open>The world after the upload has been written to its temporary file.\<close>

definition with_tmp :: "bytes \<Rightarrow> world \<Rightarrow> world" where
  "with_tmp data w = w\<lparr>fs := fs w @ [(fresh_path (fs w), data)]\<rparr>"

text \<open>The entry of page \<open>i\<close> when the call for it is the one numbered \<open>c\<close>, and what the loop
  shows for page \<open>i\<close>.\<close>

definition expected_entry ::
  "env \<Rightarrow> string \<Rightarrow> string \<Rightarrow> pdf_doc \<Rightarrow> nat \<Rightarrow> nat \<Rightarrow> analysis_result" where
  "expected_entry E m p doc c i =
     page_entry i (projr (doc ! i)) (generate_content E c m [Text p, Img (projr (doc ! i))])"

definition page_events :: "int \<Rightarrow> nat \<Rightarrow> ui_event list" where
  "page_events n i =
     [StatusText (''Processing page '' @ str_nat (i + 1) @ '' of '' @ str_nat (nat n) @ ''...''),
      Progress (i + 1) (nat n)]"

text \<open>A decoder that knows three uploads (three pages, none, one page that cannot be rendered) and
  rejects every other, and a model that fails on the second page and, for the model
  \<open>gemini-pro-vision\<close>, on a prompt without image. Neither depends on the number of the call.\<close>

definition stub_doc :: pdf_doc where
  "stub_doc = [Inr ''png1'', Inr ''png2'', Inr ''png3'']"

definition torn_doc :: pdf_doc where
  "torn_doc = [Inr ''png1'', Inl (Exn ''cannot render page'')]"

definition stub_env :: env where
  "stub_env =
     \<lparr>fitz_open = (\<lambda>data.
        if data = ''three pages'' then Inr stub_doc
        else if data = ''no pages'' then Inr []
        else if data = ''torn page'' then Inr torn_doc
        else Inl (Exn ''cannot open broken document'')),
      generate_content = (\<lambda>c model contents.
        if contents = [Text ''prompt'', Img ''png2''] then Inl (Exn ''quota exceeded'')
        else (case contents of
                [Text t, Img b] \<Rightarrow> Inr (''OK-'' @ b)
              | _ \<Rightarrow> if model = ''gemini-pro-vision''
                     then Inl (Exn ''text-only input is not supported'')
                     else Inr ''SUM''))\<rparr>"

definition idle :: world where
  "idle = \<lparr>fs = [], ui = [], calls = 0\<rparr>"


text \<open>What one tab shows, and a list of one entry to show.\<close>

definition page_widgets :: "analysis_result \<Rightarrow> ui_event list" where
  "page_widgets r =
     [StImage (image r) (''Page '' @ str_nat (page_num r)),
      Markdown ''### AI Analysis'',
      Markdown (analysis r),
      DownloadButton ''Download Analysis''
        (''# Analysis of Page '' @ str_nat (page_num r) @ ''\<newline>\<newline>'' @ analysis r)
        (''analysis_page_'' @ str_nat (page_num r) @ ''.txt'') ''text/plain'']"

definition one_page :: "analysis_result list" where
  "one_page = [\<lparr>page_num = 1, analysis = ''OK-png1'', image = ''png1''\<rparr>]"

subsection \<open>The texts as the specification words them\<close>

text \<open>The specification gives the fragment of a page in the aggregate text as
  \<open>Page {index}: {text}\<close>, and the first line of the report as \<open># Document Analysis: {filename}\<close>.\<close>

definition all_analysis_spec :: "analysis_result list \<Rightarrow> string" where
  "all_analysis_spec results =
     join_str ''\<newline>\<newline>''
       (map (\<lambda>r. ''Page '' @ str_nat (page_num r) @ '': '' @ analysis r) results)"

definition full_report_spec :: "string \<Rightarrow> string \<Rightarrow> string \<Rightarrow> string" where
  "full_report_spec filename summary joined =
     ''# Document Analysis: '' @ filename @ ''\<newline>\<newline>## Summary\<newline>\<newline>'' @ summary
       @ ''\<newline>\<newline>## Page-by-Page Analysis\<newline>\<newline>'' @ joined"

section \<open>Properties\<close>

subsection \<open>The temporary file\<close>

lemma fold_max_ge: "(a::nat) \<le> fold max xs a"
  by (induction xs arbitrary: a) (auto intro: order_trans [OF max.cobounded2])

lemma fold_max_mem: "x \<in> set xs \<Longrightarrow> (x::nat) \<le> fold max xs a"
proof (induction xs arbitrary: a)
  case Nil
  then show ?case by simp
next
  case (Cons y ys)
  show ?case
  proof (cases "x = y")
    case True
    have "y \<le> max y a" by simp
    also have "\<dots> \<le> fold max ys (max y a)" by (rule fold_max_ge)
    finally show ?thesis using True by simp
  next
    case False
    with Cons.prems have "x \<in> set ys" by simp
    then show ?thesis using Cons.IH by simp
  qed
qed

lemma fresh_path_fresh: "fresh_path files \<notin> fst ` set files"
proof
  assume "fresh_path files \<in> fst ` set files"
  then have "fresh_path files \<in> set (map fst files)" by simp
  then have "fresh_path files \<le> fold max (map fst files) 0" by (rule fold_max_mem)
  then show False by (simp add: fresh_path_def)
qed

lemma map_of_fresh:
  "map_of (files @ [(fresh_path files, data)]) (fresh_path files) = Some data"
proof -
  have "map_of files (fresh_path files) = None"
    using fresh_path_fresh [of files] by (simp add: map_of_eq_None_iff)
  then show ?thesis by (simp add: map_add_def)
qed

lemma filter_fresh: "filter (\<lambda>f. fst f \<noteq> fresh_path files) files = files"
  using fresh_path_fresh [of files] by (force simp: filter_id_conv)

lemma fs_st_emit [simp]: "fs (st_emit ev w) = fs w"
  and calls_st_emit [simp]: "calls (st_emit ev w) = calls w"
  and ui_st_emit [simp]: "ui (st_emit ev w) = ui w @ [ev]"
  by (simp_all add: st_emit_def)

lemma fs_analyze_pages: "fs (snd (analyze_pages E m p doc n idxs rs w)) = fs w"
  by (induction idxs arbitrary: rs w)
     (auto simp: call_model_def Let_def split: sum.splits prod.splits)


lemma named_temporary_file_eq:
  "named_temporary_file data w = (fresh_path (fs w), with_tmp data w)"
  by (simp add: named_temporary_file_def with_tmp_def Let_def)

lemma fs_with_tmp: "fs (with_tmp data w) = fs w @ [(fresh_path (fs w), data)]"
  and calls_with_tmp [simp]: "calls (with_tmp data w) = calls w"
  and ui_with_tmp [simp]: "ui (with_tmp data w) = ui w"
  by (simp_all add: with_tmp_def)

lemma open_path_tmp: "open_path E (fresh_path (fs w)) (with_tmp data w) = fitz_open E data"
proof -
  have "map_of (fs (with_tmp data w)) (fresh_path (fs w)) = Some data"
    unfolding fs_with_tmp by (rule map_of_fresh)
  then show ?thesis by (simp add: open_path_def)
qed

lemma os_unlink_tmp:
  assumes "fs w' = fs w @ [(fresh_path (fs w), data)]"
  shows "os_unlink (fresh_path (fs w)) w' = Inr (w'\<lparr>fs := fs w\<rparr>)"
  by (simp add: os_unlink_def assms filter_fresh)

subsection \<open>The two ways a run ends\<close>

lemma process_pdf_open_fail:
  assumes "fitz_open E pdf = Inl e"
  shows "process_pdf E m pdf L p w =
           ([], st_emit (StError (''Error processing PDF: '' @ str_exn e)) (with_tmp pdf w))"
  by (simp add: process_pdf_def process_pdf_body_def named_temporary_file_eq open_path_tmp assms)

lemma process_pdf_opened:
  assumes "fitz_open E pdf = Inr doc"
  shows "process_pdf E m pdf L p w =
           (let n = pages_to_analyze L (int (length doc));
                (r, w2) = analyze_pages E m p doc n (range_py n) []
                            (st_emit (ProgressBar 0) (with_tmp pdf w))
            in case r of
                 Inl e \<Rightarrow> ([], st_emit (StError (''Error processing PDF: '' @ str_exn e)) w2)
               | Inr rs \<Rightarrow> (rs, (st_emit (StatusText ''Processing complete!'') w2)\<lparr>fs := fs w\<rparr>))"
proof -
  define n where "n = pages_to_analyze L (int (length doc))"
  define w1 where "w1 = st_emit (ProgressBar 0) (with_tmp pdf w)"
  obtain r w2 where run: "analyze_pages E m p doc n (range_py n) [] w1 = (r, w2)"
    by (cases "analyze_pages E m p doc n (range_py n) [] w1")
  have "fs w2 = fs w1"
    using fs_analyze_pages [of E m p doc n "range_py n" "[]" w1] run by simp
  then have "fs (st_emit (StatusText ''Processing complete!'') w2) =
      fs w @ [(fresh_path (fs w), pdf)]"
    by (simp add: w1_def fs_with_tmp)
  then have unl: "os_unlink (fresh_path (fs w)) (st_emit (StatusText ''Processing complete!'') w2) =
          Inr ((st_emit (StatusText ''Processing complete!'') w2)\<lparr>fs := fs w\<rparr>)"
    by (rule os_unlink_tmp)
  show ?thesis
    using run unl
    by (simp add: process_pdf_def process_pdf_body_def named_temporary_file_eq open_path_tmp
        assms Let_def n_def [symmetric] w1_def [symmetric] split: sum.splits)
qed

lemma analyze_pages_ok:
  assumes "\<forall>i\<in>set idxs. i < length doc \<and> (\<exists>b. doc ! i = Inr b)" and "n \<noteq> 0"
  shows "analyze_pages E m p doc n idxs rs w =
           (Inr (rs @ map (\<lambda>(c, i). expected_entry E m p doc c i) (enumerate (calls w) idxs)),
            w\<lparr>ui := ui w @ concat (map (page_events n) idxs),
              calls := calls w + length idxs\<rparr>)"
  using assms
proof (induction idxs arbitrary: rs w)
  case Nil
  then show ?case by simp
next
  case (Cons i idxs)
  from Cons.prems obtain b where b: "i < length doc" "doc ! i = Inr b" by auto
  have rest: "\<forall>i\<in>set idxs. i < length doc \<and> (\<exists>b. doc ! i = Inr b)"
    using Cons.prems by simp
  show ?case
    using b Cons.prems(2)
    by (simp add: Cons.IH [OF rest Cons.prems(2)] render_page_def call_model_def true_div_def
        expected_entry_def page_events_def st_emit_def Let_def)
qed

lemma analyze_pages_fail:
  assumes "\<exists>i\<in>set idxs. \<exists>e. render_page doc i = Inl e"
  shows "\<exists>e. fst (analyze_pages E m p doc n idxs rs w) = Inl e"
  using assms
proof (induction idxs arbitrary: rs w)
  case Nil
  then show ?case by simp
next
  case (Cons i idxs)
  show ?case
  proof (cases "render_page doc i")
    case (Inl e)
    then show ?thesis by (simp add: Let_def)
  next
    case (Inr b)
    with Cons.prems have "\<exists>i\<in>set idxs. \<exists>e. render_page doc i = Inl e" by auto
    from Cons.IH [OF this] show ?thesis
      using Inr by (simp add: Let_def call_model_def split: sum.splits prod.splits)
  qed
qed


lemma pages_to_analyze_le: "pages_to_analyze L P \<le> P"
  by (simp add: pages_to_analyze_def)

lemma map_enumerate_upt:
  "map (\<lambda>(c, i). f c i) (enumerate c0 [0..<N]) = map (\<lambda>i. f (c0 + i) i) [0..<N]"
  by (rule nth_equalityI) (simp_all add: nth_enumerate_eq)

lemma pages_run_le: "pages_run L doc \<le> length doc"
  using pages_to_analyze_le [of L "int (length doc)"] by (simp add: pages_run_def)

lemma pages_run_zero: "pages_run 0 doc = length doc"
  by (simp add: pages_run_def pages_to_analyze_def)

lemma pages_run_pos: "0 < L \<Longrightarrow> int (pages_run L doc) = min L (int (length doc))"
  by (simp add: pages_run_def pages_to_analyze_def)

lemma pages_run_neg: "L < 0 \<Longrightarrow> pages_run L doc = 0"
  by (simp add: pages_run_def pages_to_analyze_def)

lemma process_pdf_ok:
  assumes opened: "fitz_open E pdf = Inr doc"
    and rendered: "\<forall>i < pages_run L doc. \<exists>b. doc ! i = Inr b"
  shows "process_pdf E m pdf L p w =
           (map (\<lambda>i. expected_entry E m p doc (calls w + i) i) [0..<pages_run L doc],
            w\<lparr>ui := ui w @ [ProgressBar 0]
                   @ concat (map (page_events (pages_to_analyze L (int (length doc))))
                       [0..<pages_run L doc])
                   @ [StatusText ''Processing complete!''],
              calls := calls w + pages_run L doc\<rparr>)"
proof -
  define n where "n = pages_to_analyze L (int (length doc))"
  define w1 where "w1 = st_emit (ProgressBar 0) (with_tmp pdf w)"
  have N: "pages_run L doc = nat n" by (simp add: pages_run_def n_def)
  have loop: "analyze_pages E m p doc n (range_py n) [] w1 =
      (Inr (map (\<lambda>i. expected_entry E m p doc (calls w + i) i) [0..<nat n]),
       w1\<lparr>ui := ui w1 @ concat (map (page_events n) [0..<nat n]),
          calls := calls w1 + nat n\<rparr>)"
  proof (cases "n \<le> 0")
    case True
    then show ?thesis by (simp add: range_py_def)
  next
    case False
    have "\<forall>i\<in>set (range_py n). i < length doc \<and> (\<exists>b. doc ! i = Inr b)"
      using rendered pages_run_le [of L doc] by (auto simp: range_py_def N)
    moreover have "n \<noteq> 0" using False by simp
    ultimately show ?thesis
      using analyze_pages_ok [of "range_py n" doc n E m p "[]" w1]
      by (simp add: range_py_def map_enumerate_upt w1_def)
  qed
  show ?thesis
    by (simp add: process_pdf_opened [OF opened] n_def [symmetric] w1_def [symmetric] loop N)
       (simp add: w1_def with_tmp_def st_emit_def)
qed


lemma page_num_expected [simp]: "page_num (expected_entry E m p doc c i) = i + 1"
  and image_expected [simp]: "image (expected_entry E m p doc c i) = projr (doc ! i)"
  by (simp_all add: expected_entry_def page_entry_def split: sum.splits)

lemma analysis_expected_Inr:
  "generate_content E c m [Text p, Img (projr (doc ! i))] = Inr t \<Longrightarrow>
   analysis (expected_entry E m p doc c i) = t"
  and analysis_expected_Inl:
  "generate_content E c m [Text p, Img (projr (doc ! i))] = Inl e \<Longrightarrow>
   analysis (expected_entry E m p doc c i) = ''Error analyzing this page: '' @ str_exn e"
  by (simp_all add: expected_entry_def page_entry_def)

lemma no_error_in_page_events: "StError msg \<notin> set (page_events n i)"
  by (simp add: page_events_def)

lemma analyze_pages_determ:
  assumes "\<forall>c c' mo co. generate_content E c mo co = generate_content E c' mo co"
  shows "fst (analyze_pages E m p doc n idxs rs w) = fst (analyze_pages E m p doc n idxs rs w')"
proof (induction idxs arbitrary: rs w w')
  case Nil
  show ?case by simp
next
  case (Cons i idxs)
  have same: "generate_content E (calls w) m co = generate_content E (calls w') m co" for co
    using assms by blast
  show ?case
    by (simp add: Let_def call_model_def same Cons.IH [of _ _ "st_emit _ (_\<lparr>calls := Suc (calls w')\<rparr>)"]
        split: sum.splits prod.splits)
qed


subsection \<open>The instance\<close>

lemma stub_opens:
  "fitz_open stub_env ''three pages'' = Inr stub_doc"
  "fitz_open stub_env ''no pages'' = Inr []"
  "fitz_open stub_env ''torn page'' = Inr torn_doc"
  "fitz_open stub_env ''broken'' = Inl (Exn ''cannot open broken document'')"
  by (simp_all add: stub_env_def)

lemma stub_doc_renders: "\<forall>i < pages_run L stub_doc. \<exists>b. stub_doc ! i = Inr b"
proof (intro allI impI)
  fix i assume "i < pages_run L stub_doc"
  then have "i < length stub_doc" using pages_run_le [of L stub_doc] by simp
  then have "i = 0 \<or> i = 1 \<or> i = 2" by (auto simp: stub_doc_def)
  then show "\<exists>b. stub_doc ! i = Inr b" by (auto simp: stub_doc_def)
qed

lemma stub_generate:
  "generate_content stub_env c m [Text ''prompt'', Img (projr (stub_doc ! 1))] =
     Inl (Exn ''quota exceeded'')"
  "generate_content stub_env c m [Text ''prompt'', Img (projr (stub_doc ! 0))] = Inr ''OK-png1''"
  "generate_content stub_env c m [Text ''prompt'', Img (projr (stub_doc ! 2))] = Inr ''OK-png3''"
  by (simp_all add: stub_env_def stub_doc_def)

lemma stub_others:
  "\<forall>i < pages_run 0 stub_doc. i \<noteq> 2 - 1 \<longrightarrow>
     (\<exists>t. generate_content stub_env (calls idle + i) ''m''
            [Text ''prompt'', Img (projr (stub_doc ! i))] = Inr t)"
proof (intro allI impI)
  fix i assume "i < pages_run 0 stub_doc" and "i \<noteq> 2 - 1"
  then have "i = 0 \<or> i = 2" by (auto simp: pages_run_zero stub_doc_def)
  then show "\<exists>t. generate_content stub_env (calls idle + i) ''m''
            [Text ''prompt'', Img (projr (stub_doc ! i))] = Inr t"
    by (auto simp: stub_generate)
qed

lemma stub_determ:
  "\<forall>c c' mo co. generate_content stub_env c mo co = generate_content stub_env c' mo co"
  by (simp add: stub_env_def)

subsection \<open>Claims about process\_pdf\<close>

text \<open>
  Claim C1, as the code has it. The document opens, every page the loop reaches renders, and
  the model raises \<open>e\<close> on page \<open>k\<close> (counted from 1) and answers on every other page of the
  run. Then the run returns one entry per page of the run, that is all pages for the limit 0
  and \<open>min L P\<close> pages for a positive limit; entry \<open>k\<close> has the page number \<open>k\<close> and the text
  \<open>Error analyzing this page: \<close> followed by \<open>str(e)\<close>; every other entry holds the answer of
  the model as it is; and the run shows no error that was not on the screen before (the
  exception is not raised again).
\<close>

theorem page_failure_becomes_placeholder:
  assumes "fitz_open E pdf = Inr doc" and "0 \<le> L"
    and "\<forall>i < pages_run L doc. \<exists>b. doc ! i = Inr b"
    and "1 \<le> k" and "k \<le> pages_run L doc"
    and "generate_content E (calls w + (k - 1)) m [Text p, Img (projr (doc ! (k - 1)))] = Inl e"
    and "\<forall>i < pages_run L doc. i \<noteq> k - 1 \<longrightarrow>
           (\<exists>t. generate_content E (calls w + i) m [Text p, Img (projr (doc ! i))] = Inr t)"
  shows "length (fst (process_pdf E m pdf L p w)) =
           (if L = 0 then length doc else min (nat L) (length doc))
       \<and> page_num (fst (process_pdf E m pdf L p w) ! (k - 1)) = k
       \<and> analysis (fst (process_pdf E m pdf L p w) ! (k - 1)) =
           ''Error analyzing this page: '' @ str_exn e
       \<and> (\<forall>i < pages_run L doc. i \<noteq> k - 1 \<longrightarrow>
            generate_content E (calls w + i) m [Text p, Img (projr (doc ! i))] =
              Inr (analysis (fst (process_pdf E m pdf L p w) ! i)))
       \<and> (\<forall>msg. StError msg \<in> set (ui (snd (process_pdf E m pdf L p w))) \<longrightarrow>
            StError msg \<in> set (ui w))"
proof -
  note run = process_pdf_ok [OF assms(1) assms(3), of m p w]
  have len: "length (fst (process_pdf E m pdf L p w)) = pages_run L doc"
    by (simp add: run)
  have count: "pages_run L doc = (if L = 0 then length doc else min (nat L) (length doc))"
    using assms(2) by (auto simp: pages_run_def pages_to_analyze_def)
  have k: "k - 1 < pages_run L doc" using assms(4,5) by simp
  have entry_k: "fst (process_pdf E m pdf L p w) ! (k - 1) =
      expected_entry E m p doc (calls w + (k - 1)) (k - 1)"
    using k by (simp add: run)
  have failed: "analysis (fst (process_pdf E m pdf L p w) ! (k - 1)) =
      ''Error analyzing this page: '' @ str_exn e"
    by (simp only: entry_k analysis_expected_Inl [OF assms(6)])
  have num: "page_num (fst (process_pdf E m pdf L p w) ! (k - 1)) = k"
    using assms(4) entry_k by simp
  have others: "generate_content E (calls w + i) m [Text p, Img (projr (doc ! i))] =
      Inr (analysis (fst (process_pdf E m pdf L p w) ! i))"
    if "i < pages_run L doc" "i \<noteq> k - 1" for i
  proof -
    from assms(7) that obtain t
      where t: "generate_content E (calls w + i) m [Text p, Img (projr (doc ! i))] = Inr t"
      by blast
    show ?thesis using that(1) by (simp add: run t analysis_expected_Inr [OF t])
  qed
  have quiet: "StError msg \<in> set (ui w)"
    if "StError msg \<in> set (ui (snd (process_pdf E m pdf L p w)))" for msg
    using that by (auto simp: run no_error_in_page_events)
  show ?thesis using len count failed num others quiet by simp
qed

theorem page_failure_becomes_placeholder_witness:
  "fitz_open stub_env ''three pages'' = Inr stub_doc
   \<and> generate_content stub_env (calls idle + (2 - 1)) ''m''
        [Text ''prompt'', Img (projr (stub_doc ! (2 - 1)))] = Inl (Exn ''quota exceeded'')
   \<and> length (fst (process_pdf stub_env ''m'' ''three pages'' 0 ''prompt'' idle)) = 3
   \<and> page_num (fst (process_pdf stub_env ''m'' ''three pages'' 0 ''prompt'' idle) ! 1) = 2
   \<and> analysis (fst (process_pdf stub_env ''m'' ''three pages'' 0 ''prompt'' idle) ! 1) =
        ''Error analyzing this page: quota exceeded''
   \<and> analysis (fst (process_pdf stub_env ''m'' ''three pages'' 0 ''prompt'' idle) ! 0) = ''OK-png1''
   \<and> analysis (fst (process_pdf stub_env ''m'' ''three pages'' 0 ''prompt'' idle) ! 2) = ''OK-png3''"
proof -
  have fails: "generate_content stub_env (calls idle + (2 - 1)) ''m''
        [Text ''prompt'', Img (projr (stub_doc ! (2 - 1)))] = Inl (Exn ''quota exceeded'')"
    by (simp add: stub_env_def stub_doc_def)
  have k: "(1::nat) \<le> 2" "2 \<le> pages_run 0 stub_doc"
    by (simp_all add: pages_run_zero stub_doc_def)
  note main = page_failure_becomes_placeholder [OF stub_opens(1) order_refl stub_doc_renders k fails stub_others]
  have others: "generate_content stub_env (calls idle + i) ''m''
        [Text ''prompt'', Img (projr (stub_doc ! i))] =
      Inr (analysis (fst (process_pdf stub_env ''m'' ''three pages'' 0 ''prompt'' idle) ! i))"
    if "i < pages_run 0 stub_doc" "i \<noteq> 1" for i
    using main that by simp
  have "analysis (fst (process_pdf stub_env ''m'' ''three pages'' 0 ''prompt'' idle) ! 0) = ''OK-png1''"
    "analysis (fst (process_pdf stub_env ''m'' ''three pages'' 0 ''prompt'' idle) ! 2) = ''OK-png3''"
    using others [of 0] others [of 2]
    by (simp_all add: pages_run_zero stub_generate) (simp_all add: stub_doc_def)
  with main fails stub_opens(1) show ?thesis by (simp add: stub_doc_def)
qed

text \<open>The count of C1 as the claim words it, \<open>min L P\<close> for every limit, fails for the limit 0:
  three pages, the model failing on page 2 only, and three entries are returned, not
  \<open>min 0 3 = 0\<close>.\<close>

theorem page_failure_count_is_not_min:
  "fitz_open stub_env ''three pages'' = Inr stub_doc
   \<and> length stub_doc = 3
   \<and> generate_content stub_env 0 ''m'' [Text ''prompt'', Img ''png1''] = Inr ''OK-png1''
   \<and> generate_content stub_env 1 ''m'' [Text ''prompt'', Img ''png2''] = Inl (Exn ''quota exceeded'')
   \<and> generate_content stub_env 2 ''m'' [Text ''prompt'', Img ''png3''] = Inr ''OK-png3''
   \<and> int (length (fst (process_pdf stub_env ''m'' ''three pages'' 0 ''prompt'' idle))) \<noteq>
        min 0 (int (length stub_doc))"
  by (simp add: process_pdf_ok [OF stub_opens(1) stub_doc_renders] pages_run_zero)
     (simp add: stub_env_def stub_doc_def)

text \<open>
  Claim C2, as the code has it. For a document of \<open>P\<close> pages that opens and whose pages, as
  far as the loop reaches them, render, and a limit \<open>L \<ge> 0\<close>, the run returns exactly \<open>P\<close>
  entries when \<open>L = 0\<close> and exactly \<open>min L P\<close> when \<open>L > 0\<close>, and it has called the model
  once per entry.
\<close>

theorem pages_processed_count:
  assumes "fitz_open E pdf = Inr doc" and "0 \<le> L"
    and "\<forall>i < pages_run L doc. \<exists>b. doc ! i = Inr b"
  shows "(L = 0 \<longrightarrow> length (fst (process_pdf E m pdf L p w)) = length doc)
       \<and> (0 < L \<longrightarrow> int (length (fst (process_pdf E m pdf L p w))) = min L (int (length doc)))
       \<and> calls (snd (process_pdf E m pdf L p w)) =
           calls w + length (fst (process_pdf E m pdf L p w))"
proof -
  have len: "length (fst (process_pdf E m pdf L p w)) = pages_run L doc"
    and cnt: "calls (snd (process_pdf E m pdf L p w)) = calls w + pages_run L doc"
    by (simp_all add: process_pdf_ok [OF assms(1) assms(3)])
  show ?thesis
    unfolding len cnt using pages_run_pos [of L doc] by (auto simp: pages_run_zero)
qed

theorem pages_processed_count_witness:
  "fitz_open stub_env ''three pages'' = Inr stub_doc
   \<and> length (fst (process_pdf stub_env ''m'' ''three pages'' 2 ''prompt'' idle)) = 2
   \<and> length (fst (process_pdf stub_env ''m'' ''three pages'' 0 ''prompt'' idle)) = 3
   \<and> calls (snd (process_pdf stub_env ''m'' ''three pages'' 2 ''prompt'' idle)) = 2"
  using pages_processed_count [of stub_env "''three pages''" stub_doc 2 "''m''" "''prompt''" idle,
      OF stub_opens(1) _ stub_doc_renders]
    pages_processed_count [of stub_env "''three pages''" stub_doc 0 "''m''" "''prompt''" idle,
      OF stub_opens(1) _ stub_doc_renders]
  by (simp add: stub_opens stub_doc_def idle_def)

text \<open>The count of C2 as the claim words it, for every document of \<open>P\<close> pages, fails for a
  document with a page that cannot be rendered: the handler of \<open>process_pdf\<close> returns the
  empty list. Two pages, the second one torn: no entry is returned for the limit 0, not 2,
  and none for the limit 5, not \<open>min 5 2 = 2\<close>.\<close>

theorem pages_count_fails_on_torn_page:
  "fitz_open stub_env ''torn page'' = Inr torn_doc
   \<and> length torn_doc = 2
   \<and> length (fst (process_pdf stub_env ''m'' ''torn page'' 0 ''prompt'' idle)) \<noteq> length torn_doc
   \<and> int (length (fst (process_pdf stub_env ''m'' ''torn page'' 5 ''prompt'' idle))) \<noteq>
        min 5 (int (length torn_doc))"
  by code_simp

text \<open>
  Claim C3. When the document cannot be opened, or a page the loop reaches cannot be rendered,
  the run returns the empty list, whatever it had collected, and the last thing it shows is
  the error \<open>Error processing PDF: \<close> followed by the cause.
\<close>

theorem render_failure_gives_no_results:
  assumes "(\<exists>e. fitz_open E pdf = Inl e)
         \<or> (\<exists>doc. fitz_open E pdf = Inr doc
               \<and> (\<exists>i < pages_run L doc. \<exists>e. doc ! i = Inl e))"
  shows "fst (process_pdf E m pdf L p w) = []
       \<and> (\<exists>e. last (ui (snd (process_pdf E m pdf L p w))) =
                StError (''Error processing PDF: '' @ str_exn e))"
  using assms
proof
  assume "\<exists>e. fitz_open E pdf = Inl e"
  then obtain e where "fitz_open E pdf = Inl e" ..
  then show ?thesis by (auto simp: process_pdf_open_fail)
next
  assume "\<exists>doc. fitz_open E pdf = Inr doc \<and> (\<exists>i < pages_run L doc. \<exists>e. doc ! i = Inl e)"
  then obtain doc i e where opened: "fitz_open E pdf = Inr doc"
    and i: "i < pages_run L doc" and bad: "doc ! i = Inl e"
    by blast
  define n where "n = pages_to_analyze L (int (length doc))"
  define w1 where "w1 = st_emit (ProgressBar 0) (with_tmp pdf w)"
  have "i \<in> set (range_py n)" using i by (simp add: range_py_def pages_run_def n_def)
  moreover have "render_page doc i = Inl e"
    using i pages_run_le [of L doc] bad by (simp add: render_page_def)
  ultimately have "\<exists>i\<in>set (range_py n). \<exists>e. render_page doc i = Inl e" by blast
  from analyze_pages_fail [OF this, of E m p n "[]" w1]
  obtain e' where "fst (analyze_pages E m p doc n (range_py n) [] w1) = Inl e'" ..
  then obtain w2 where "analyze_pages E m p doc n (range_py n) [] w1 = (Inl e', w2)"
    by (cases "analyze_pages E m p doc n (range_py n) [] w1") simp
  then show ?thesis
    by (auto simp: process_pdf_opened [OF opened] n_def [symmetric] w1_def [symmetric])
qed

theorem render_failure_gives_no_results_witness:
  "fitz_open stub_env ''torn page'' = Inr torn_doc
   \<and> torn_doc ! 1 = Inl (Exn ''cannot render page'')
   \<and> fst (process_pdf stub_env ''m'' ''torn page'' 5 ''prompt'' idle) = []
   \<and> (\<exists>e. last (ui (snd (process_pdf stub_env ''m'' ''torn page'' 5 ''prompt'' idle))) =
            StError (''Error processing PDF: '' @ str_exn e))"
proof -
  have "1 < pages_run 5 torn_doc" by (simp add: pages_run_def pages_to_analyze_def torn_doc_def)
  moreover have "torn_doc ! 1 = Inl (Exn ''cannot render page'')" by (simp add: torn_doc_def)
  ultimately have "\<exists>doc. fitz_open stub_env ''torn page'' = Inr doc
      \<and> (\<exists>i < pages_run 5 doc. \<exists>e. doc ! i = Inl e)"
    using stub_opens(3) by blast
  then show ?thesis
    using render_failure_gives_no_results [of stub_env "''torn page''" 5 "''m''" "''prompt''" idle] stub_opens(3)
    by (simp add: torn_doc_def)
qed

text \<open>
  Claim C5. In a run that opens the document and renders its pages, the page numbers of the
  entries are 1, 2, ... up to the number of entries (ascending, no gap, no duplicate), every
  entry carries the image of the page it is numbered after, and there are at most \<open>P\<close>
  entries and, for a positive limit \<open>L\<close>, at most \<open>min L P\<close>.
\<close>

theorem results_follow_page_order:
  assumes "fitz_open E pdf = Inr doc"
    and "\<forall>i < pages_run L doc. \<exists>b. doc ! i = Inr b"
  shows "map page_num (fst (process_pdf E m pdf L p w)) =
           [1 ..< length (fst (process_pdf E m pdf L p w)) + 1]
       \<and> (\<forall>i < length (fst (process_pdf E m pdf L p w)).
            doc ! (page_num (fst (process_pdf E m pdf L p w) ! i) - 1) =
              Inr (image (fst (process_pdf E m pdf L p w) ! i)))
       \<and> length (fst (process_pdf E m pdf L p w)) \<le> length doc
       \<and> (0 < L \<longrightarrow> int (length (fst (process_pdf E m pdf L p w))) \<le> min L (int (length doc)))"
proof -
  note run = process_pdf_ok [OF assms, of m p w]
  have nums: "map page_num (fst (process_pdf E m pdf L p w)) =
      [1 ..< length (fst (process_pdf E m pdf L p w)) + 1]"
    by (rule nth_equalityI) (simp_all add: run del: upt_Suc)
  have src: "doc ! (page_num (fst (process_pdf E m pdf L p w) ! i) - 1) =
      Inr (image (fst (process_pdf E m pdf L p w) ! i))"
    if "i < length (fst (process_pdf E m pdf L p w))" for i
  proof -
    from that have "i < pages_run L doc" by (simp add: run)
    with assms(2) obtain b where "doc ! i = Inr b" by blast
    with \<open>i < pages_run L doc\<close> show ?thesis by (simp add: run)
  qed
  have "length (fst (process_pdf E m pdf L p w)) \<le> length doc"
    by (simp add: run pages_run_le)
  moreover have "int (length (fst (process_pdf E m pdf L p w))) \<le> min L (int (length doc))"
    if "0 < L"
    using pages_run_pos [OF that, of doc] by (simp add: run)
  ultimately show ?thesis using nums src by blast
qed

theorem results_follow_page_order_witness:
  "fitz_open stub_env ''three pages'' = Inr stub_doc
   \<and> map page_num (fst (process_pdf stub_env ''m'' ''three pages'' 2 ''prompt'' idle)) = [1, 2]
   \<and> stub_doc ! (page_num (fst (process_pdf stub_env ''m'' ''three pages'' 2 ''prompt'' idle) ! 1) - 1)
        = Inr (image (fst (process_pdf stub_env ''m'' ''three pages'' 2 ''prompt'' idle) ! 1))
   \<and> length (fst (process_pdf stub_env ''m'' ''three pages'' 2 ''prompt'' idle)) \<le> 2"
proof -
  have len: "length (fst (process_pdf stub_env ''m'' ''three pages'' 2 ''prompt'' idle)) = 2"
    by (simp add: process_pdf_ok [OF stub_opens(1) stub_doc_renders] pages_run_def
        pages_to_analyze_def stub_doc_def)
  have nums: "[1 ..< (2::nat) + 1] = [1, 2]" by code_simp
  note main = results_follow_page_order [of stub_env "''three pages''" stub_doc 2 "''m''" "''prompt''" idle,
      OF stub_opens(1) stub_doc_renders]
  from main have "map page_num (fst (process_pdf stub_env ''m'' ''three pages'' 2 ''prompt'' idle)) =
      [1 ..< length (fst (process_pdf stub_env ''m'' ''three pages'' 2 ''prompt'' idle)) + 1]"
    by (rule conjunct1)
  then have a: "map page_num (fst (process_pdf stub_env ''m'' ''three pages'' 2 ''prompt'' idle)) = [1, 2]"
    unfolding len nums .
  from main have "\<forall>i < length (fst (process_pdf stub_env ''m'' ''three pages'' 2 ''prompt'' idle)).
      stub_doc ! (page_num (fst (process_pdf stub_env ''m'' ''three pages'' 2 ''prompt'' idle) ! i) - 1) =
        Inr (image (fst (process_pdf stub_env ''m'' ''three pages'' 2 ''prompt'' idle) ! i))"
    by blast
  then have b: "stub_doc ! (page_num (fst (process_pdf stub_env ''m'' ''three pages'' 2 ''prompt'' idle) ! 1) - 1)
        = Inr (image (fst (process_pdf stub_env ''m'' ''three pages'' 2 ''prompt'' idle) ! 1))"
    unfolding len by simp
  show ?thesis using a b len stub_opens(1) by simp
qed

text \<open>
  Claim C9. With a model whose answer does not depend on the number of the call, a second
  run on the same upload with the same limit, model and prompt, started in the world the
  first run leaves, returns the same entries as the first.
\<close>

theorem second_run_same_results:
  assumes "\<forall>c c' mo co. generate_content E c mo co = generate_content E c' mo co"
  shows "fst (process_pdf E m pdf L p (snd (process_pdf E m pdf L p w))) =
         fst (process_pdf E m pdf L p w)"
proof -
  have indep: "fst (process_pdf E m pdf L p w1) = fst (process_pdf E m pdf L p w2)" for w1 w2
  proof (cases "fitz_open E pdf")
    case (Inl e)
    then show ?thesis by (simp add: process_pdf_open_fail)
  next
    case (Inr doc)
    define n where "n = pages_to_analyze L (int (length doc))"
    obtain r1 v1 where run1: "analyze_pages E m p doc n (range_py n) []
        (st_emit (ProgressBar 0) (with_tmp pdf w1)) = (r1, v1)"
      by (cases "analyze_pages E m p doc n (range_py n) []
        (st_emit (ProgressBar 0) (with_tmp pdf w1))")
    obtain r2 v2 where run2: "analyze_pages E m p doc n (range_py n) []
        (st_emit (ProgressBar 0) (with_tmp pdf w2)) = (r2, v2)"
      by (cases "analyze_pages E m p doc n (range_py n) []
        (st_emit (ProgressBar 0) (with_tmp pdf w2))")
    have "r1 = r2"
      using analyze_pages_determ [OF assms, of m p doc n "range_py n" "[]"
          "st_emit (ProgressBar 0) (with_tmp pdf w1)" "st_emit (ProgressBar 0) (with_tmp pdf w2)"]
      by (simp add: run1 run2)
    then show ?thesis
      by (simp add: process_pdf_opened [OF Inr] n_def [symmetric] run1 run2 split: sum.splits)
  qed
  show ?thesis by (rule indep)
qed


theorem second_run_same_results_witness:
  "(\<forall>c c' mo co. generate_content stub_env c mo co = generate_content stub_env c' mo co)
   \<and> fst (process_pdf stub_env ''m'' ''three pages'' 0 ''prompt''
            (snd (process_pdf stub_env ''m'' ''three pages'' 0 ''prompt'' idle))) =
       fst (process_pdf stub_env ''m'' ''three pages'' 0 ''prompt'' idle)"
  using second_run_same_results [OF stub_determ] stub_determ by blast

text \<open>
  Claim C10. For a document that opens and has no page, whatever the limit, the run returns
  the empty list; it shows the progress bar and \<open>Processing complete!\<close> and nothing else (no
  progress of a page, so the quotient is never computed, and no error), calls the model not
  at all and leaves the files as they were.
\<close>

theorem empty_document_run:
  assumes "fitz_open E pdf = Inr []"
  shows "process_pdf E m pdf L p w =
           ([], w\<lparr>ui := ui w @ [ProgressBar 0, StatusText ''Processing complete!'']\<rparr>)"
proof -
  have "pages_run L [] = 0" by (simp add: pages_run_def pages_to_analyze_def)
  then show ?thesis
    using process_pdf_ok [OF assms, of L m p w] by simp
qed

theorem empty_document_run_witness:
  "fitz_open stub_env ''no pages'' = Inr []
   \<and> process_pdf stub_env ''m'' ''no pages'' 5 ''prompt'' idle =
       ([], \<lparr>fs = [], ui = [ProgressBar 0, StatusText ''Processing complete!''], calls = 0\<rparr>)"
  using empty_document_run [of stub_env "''no pages''" "''m''" 5 "''prompt''" idle, OF stub_opens(2)]
  by (simp add: stub_opens idle_def)

subsection \<open>The template and the widgets\<close>

lemma prepend_prepend: "prepend a (prepend b r) = prepend (a @ b) r"
  by (simp add: prepend_def split: sum.splits)

lemma format_py_plain:
  assumes "CHR ''{'' \<notin> set a" and "CHR ''}'' \<notin> set a"
  shows "format_py kw None (a @ r) = prepend a (format_py kw None r)"
  using assms
proof (induction a)
  case Nil
  show ?case by (simp add: prepend_def split: sum.splits)
next
  case (Cons c a)
  from Cons.prems have "c \<noteq> CHR ''{''" "c \<noteq> CHR ''}''" by auto
  with Cons show ?case by (simp add: prepend_prepend)
qed

lemma format_py_field:
  assumes "CHR ''}'' \<notin> set g"
  shows "format_py kw (Some f) (g @ CHR ''}'' # r) =
           (case map_of kw (f @ g) of
              None \<Rightarrow> Inl (Exn (f @ g))
            | Some v \<Rightarrow> prepend v (format_py kw None r))"
  using assms by (induction g arbitrary: f) (auto split: option.splits)

lemma head_plain: "CHR ''{'' \<notin> set template_head" "CHR ''}'' \<notin> set template_head"
  by (simp_all add: template_head_def)

lemma tail_plain: "CHR ''{'' \<notin> set template_tail" "CHR ''}'' \<notin> set template_tail"
  by (simp_all add: template_tail_def)

lemma format_template:
  "format_py [(''all_analysis'', v)] None SUMMARY_PROMPT_TEMPLATE =
     Inr (template_head @ v @ template_tail)"
proof -
  have tail: "format_py [(''all_analysis'', v)] None template_tail = Inr template_tail"
    using format_py_plain [OF tail_plain, of "[(''all_analysis'', v)]" "[]"] by (simp add: prepend_def)
  have field: "format_py [(''all_analysis'', v)] (Some []) (''all_analysis'' @ CHR ''}'' # template_tail) =
      Inr (v @ template_tail)"
    by (subst format_py_field) (simp_all add: tail prepend_def)
  have "format_py [(''all_analysis'', v)] None (''{all_analysis}'' @ template_tail) =
      Inr (v @ template_tail)"
    using field by simp
  then show ?thesis
    unfolding SUMMARY_PROMPT_TEMPLATE_def
    by (simp only: format_py_plain [OF head_plain] prepend_def sum.case)
qed

lemma str_nat_digit: "n < 10 \<Longrightarrow> str_nat n = [char_of (48 + n)]"
  by (simp add: str_nat.simps)

lemma str_nat_1: "str_nat 1 = ''1''"
  by code_simp

lemma str_nat_Suc_0: "str_nat (Suc 0) = ''1''"
  using str_nat_1 by simp

lemma str_nat_examples: "str_nat 0 = ''0''" "str_nat 7 = ''7''" "str_nat 10 = ''10''" "str_nat 123 = ''123''"
  by code_simp+

lemma ui_fold_show_page:
  "ui (fold show_page rs w) = ui w @ concat (map page_widgets rs)"
  by (induction rs arbitrary: w) (simp_all add: show_page_def page_widgets_def)

lemma calls_fold_show_page: "calls (fold show_page rs w) = calls w"
  by (induction rs arbitrary: w) (simp_all add: show_page_def)

lemma ui_show_tabs:
  "ui (show_tabs rs w) =
     ui w @ Tabs (map (\<lambda>r. ''Page '' @ str_nat (page_num r)) rs) # concat (map page_widgets rs)"
  by (simp add: show_tabs_def ui_fold_show_page)

lemma calls_show_tabs: "calls (show_tabs rs w) = calls w"
  by (simp add: show_tabs_def calls_fold_show_page)

lemma document_summary_ok:
  assumes "generate_content E (calls w) model
             [Text (template_head @ all_analysis_of results @ template_tail)] = Inr summary"
  shows "ui (document_summary E model name results w) =
           ui w @ [Markdown ''---'', Markdown ''## Document Summary'', Markdown summary,
                   DownloadButton ''Download Full Report''
                     (''# JFK Document Analysis: '' @ name @ ''\<newline>\<newline>## Summary\<newline>\<newline>''
                        @ summary @ ''\<newline>\<newline>## Page-by-Page Analysis\<newline>\<newline>''
                        @ all_analysis_of results)
                     (''jfk_analysis_'' @ name @ ''.txt'') ''text/plain'']"
  using assms
  by (simp add: document_summary_def summary_prompt_of_def format_template call_model_def Let_def)

lemma document_summary_fail:
  assumes "generate_content E (calls w) model
             [Text (template_head @ all_analysis_of results @ template_tail)] = Inl e"
  shows "ui (document_summary E model name results w) =
           ui w @ [Markdown ''---'', Markdown ''## Document Summary'',
                   StError (''Error generating summary: '' @ str_exn e)]"
  using assms
  by (simp add: document_summary_def summary_prompt_of_def format_template call_model_def Let_def)

lemma stub_summary:
  "generate_content stub_env c ''m'' [Text t] = Inr ''SUM''"
  "generate_content stub_env c ''gemini-pro-vision'' [Text t] =
     Inl (Exn ''text-only input is not supported'')"
  by (simp_all add: stub_env_def)

lemma all_analysis_one_page: "all_analysis_of one_page = ''**Page 1**:\<newline>OK-png1''"
  by (simp add: all_analysis_of_def one_page_def str_nat_Suc_0)

lemma process_pdf_fail_keeps_file:
  assumes "(\<exists>e. fitz_open E pdf = Inl e)
         \<or> (\<exists>doc. fitz_open E pdf = Inr doc
               \<and> (\<exists>i < pages_run L doc. \<exists>e. doc ! i = Inl e))"
  shows "fs (snd (process_pdf E m pdf L p w)) = fs w @ [(fresh_path (fs w), pdf)]"
  using assms
proof
  assume "\<exists>e. fitz_open E pdf = Inl e"
  then obtain e where "fitz_open E pdf = Inl e" ..
  then show ?thesis by (simp add: process_pdf_open_fail fs_with_tmp)
next
  assume "\<exists>doc. fitz_open E pdf = Inr doc \<and> (\<exists>i < pages_run L doc. \<exists>e. doc ! i = Inl e)"
  then obtain doc i e where opened: "fitz_open E pdf = Inr doc"
    and i: "i < pages_run L doc" and bad: "doc ! i = Inl e"
    by blast
  define n where "n = pages_to_analyze L (int (length doc))"
  define w1 where "w1 = st_emit (ProgressBar 0) (with_tmp pdf w)"
  have "i \<in> set (range_py n)" using i by (simp add: range_py_def pages_run_def n_def)
  moreover have "render_page doc i = Inl e"
    using i pages_run_le [of L doc] bad by (simp add: render_page_def)
  ultimately have "\<exists>i\<in>set (range_py n). \<exists>e. render_page doc i = Inl e" by blast
  from analyze_pages_fail [OF this, of E m p n "[]" w1]
  obtain e' where "fst (analyze_pages E m p doc n (range_py n) [] w1) = Inl e'" ..
  then obtain w2 where run: "analyze_pages E m p doc n (range_py n) [] w1 = (Inl e', w2)"
    by (cases "analyze_pages E m p doc n (range_py n) [] w1") simp
  have "fs w2 = fs w1"
    using fs_analyze_pages [of E m p doc n "range_py n" "[]" w1] run by simp
  then show ?thesis
    by (simp add: process_pdf_opened [OF opened] n_def [symmetric] w1_def [symmetric] run)
       (simp add: w1_def fs_with_tmp)
qed

subsection \<open>Claims about the temporary file, the summary and the report\<close>

text \<open>
  Claim C4 says the temporary copy of the upload is removed on every way out of a run. The
  code removes it at the end of the \<open>try\<close> block only; the handler returns without
  \<open>os.unlink\<close>. Run on an upload that cannot be opened, and on one whose second page cannot
  be rendered, the file is still there when \<open>process_pdf\<close> returns; after a run that
  completes it is gone. (\<open>process_pdf_fail_keeps_file\<close> above is the general statement.)
\<close>

theorem failed_run_leaves_temporary_file:
  "process_pdf stub_env ''m'' ''broken'' 5 ''prompt'' idle =
     ([], \<lparr>fs = [(1, ''broken'')],
           ui = [StError ''Error processing PDF: cannot open broken document''],
           calls = 0\<rparr>)
   \<and> fs (snd (process_pdf stub_env ''m'' ''torn page'' 5 ''prompt'' idle)) = [(1, ''torn page'')]
   \<and> fs (snd (process_pdf stub_env ''m'' ''three pages'' 5 ''prompt'' idle)) = []"
  by code_simp

text \<open>
  Claim C6, as the code has it. The prompt of the summary is the template with its field
  replaced by the aggregate text, and the aggregate text is the fragments
  \<open>**Page {index}**:\<close>, a line break, \<open>{text}\<close>, one per entry in order, joined by a blank line.
  The text put in is not read as a template again, so braces in an analysis do no harm.
\<close>

theorem summary_prompt_text:
  "summary_prompt_of results =
     Inr (template_head
          @ join_str ''\<newline>\<newline>''
              (map (\<lambda>r. ''**Page '' @ str_nat (page_num r) @ ''**:\<newline>'' @ analysis r) results)
          @ template_tail)"
  by (simp add: summary_prompt_of_def format_template all_analysis_of_def)

text \<open>The fragment of C6 as the claim words it, \<open>Page {index}: {text}\<close>, is not what the code
  builds: for one entry the two prompts differ.\<close>

theorem summary_prompt_is_not_plain_page_lines:
  "summary_prompt_of one_page \<noteq> Inr (template_head @ all_analysis_spec one_page @ template_tail)"
  by (simp add: summary_prompt_of_def format_template all_analysis_of_def all_analysis_spec_def
      one_page_def)


text \<open>
  Claim C7, as the code has it. When there are entries and the call for the summary answers
  \<open>summary\<close>, the last widget is the download button of the report, and the report is
  \<open># JFK Document Analysis: {filename}\<close>, a blank line, \<open>## Summary\<close>, a blank line, the summary,
  a blank line, \<open>## Page-by-Page Analysis\<close>, a blank line, and the aggregate text of the pages
  in page order.
\<close>

theorem full_report_text:
  assumes "results \<noteq> []"
    and "generate_content E (calls w) model
           [Text (template_head @ all_analysis_of results @ template_tail)] = Inr summary"
  shows "last (ui (display_results E model name results w)) =
           DownloadButton ''Download Full Report''
             (''# JFK Document Analysis: '' @ name @ ''\<newline>\<newline>## Summary\<newline>\<newline>''
                @ summary @ ''\<newline>\<newline>## Page-by-Page Analysis\<newline>\<newline>''
                @ all_analysis_of results)
             (''jfk_analysis_'' @ name @ ''.txt'') ''text/plain''"
proof -
  have "generate_content E (calls (show_tabs results w)) model
      [Text (template_head @ all_analysis_of results @ template_tail)] = Inr summary"
    using assms(2) by (simp add: calls_show_tabs)
  from document_summary_ok [OF this] show ?thesis
    using assms(1) by (simp add: display_results_def)
qed

theorem full_report_text_witness:
  "one_page \<noteq> []
   \<and> generate_content stub_env (calls idle) ''m''
        [Text (template_head @ all_analysis_of one_page @ template_tail)] = Inr ''SUM''
   \<and> last (ui (display_results stub_env ''m'' ''a.pdf'' one_page idle)) =
        DownloadButton ''Download Full Report''
          ''# JFK Document Analysis: a.pdf\<newline>\<newline>## Summary\<newline>\<newline>SUM\<newline>\<newline>## Page-by-Page Analysis\<newline>\<newline>**Page 1**:\<newline>OK-png1''
          ''jfk_analysis_a.pdf.txt'' ''text/plain''"
proof -
  have ne: "one_page \<noteq> []" by (simp add: one_page_def)
  show ?thesis
    using full_report_text [of one_page stub_env idle "''m''" "''SUM''" "''a.pdf''", OF ne stub_summary(1)]
    by (simp add: ne stub_summary all_analysis_one_page)
qed

text \<open>The report of C7 as the claim words it starts with \<open># Document Analysis: \<close>; the code's
  starts with \<open># JFK Document Analysis: \<close>.\<close>

theorem full_report_header_differs:
  "last (ui (display_results stub_env ''m'' ''a.pdf'' one_page idle)) \<noteq>
     DownloadButton ''Download Full Report''
       (full_report_spec ''a.pdf'' ''SUM'' (all_analysis_of one_page))
       ''jfk_analysis_a.pdf.txt'' ''text/plain''"
proof -
  have "generate_content stub_env (calls (show_tabs one_page idle)) ''m''
      [Text (template_head @ all_analysis_of one_page @ template_tail)] = Inr ''SUM''"
    by (rule stub_summary)
  from document_summary_ok [OF this, of "''a.pdf''"] show ?thesis
    by (simp add: display_results_def full_report_spec_def one_page_def)
qed

text \<open>
  Claim C8. When there are entries and the call for the summary raises \<open>e\<close>, the program shows
  the tabs of the pages as it does otherwise, then the heading of the summary and the error
  \<open>Error generating summary: \<close> followed by \<open>str(e)\<close>; every entry has its download button with
  its own text unchanged; and no download button of a full report is among the widgets
  shown.
\<close>

theorem summary_failure_is_surfaced:
  assumes "results \<noteq> []"
    and "generate_content E (calls w) model
           [Text (template_head @ all_analysis_of results @ template_tail)] = Inl e"
  shows "ui (display_results E model name results w) =
           ui (show_tabs results w)
             @ [Markdown ''---'', Markdown ''## Document Summary'',
                StError (''Error generating summary: '' @ str_exn e)]
       \<and> (\<forall>r \<in> set results.
             DownloadButton ''Download Analysis''
               (''# Analysis of Page '' @ str_nat (page_num r) @ ''\<newline>\<newline>'' @ analysis r)
               (''analysis_page_'' @ str_nat (page_num r) @ ''.txt'') ''text/plain''
             \<in> set (ui (display_results E model name results w)))
       \<and> (\<forall>report fname mime.
             DownloadButton ''Download Full Report'' report fname mime
             \<notin> set (drop (length (ui w)) (ui (display_results E model name results w))))"
proof -
  have "generate_content E (calls (show_tabs results w)) model
      [Text (template_head @ all_analysis_of results @ template_tail)] = Inl e"
    using assms(2) by (simp add: calls_show_tabs)
  from document_summary_fail [OF this]
  have shown: "ui (display_results E model name results w) =
      ui (show_tabs results w)
        @ [Markdown ''---'', Markdown ''## Document Summary'',
           StError (''Error generating summary: '' @ str_exn e)]"
    using assms(1) by (simp add: display_results_def)
  have pages: "DownloadButton ''Download Analysis''
        (''# Analysis of Page '' @ str_nat (page_num r) @ ''\<newline>\<newline>'' @ analysis r)
        (''analysis_page_'' @ str_nat (page_num r) @ ''.txt'') ''text/plain''
      \<in> set (ui (display_results E model name results w))"
    if "r \<in> set results" for r
  proof -
    have "DownloadButton ''Download Analysis''
        (''# Analysis of Page '' @ str_nat (page_num r) @ ''\<newline>\<newline>'' @ analysis r)
        (''analysis_page_'' @ str_nat (page_num r) @ ''.txt'') ''text/plain''
        \<in> set (page_widgets r)"
      by (simp add: page_widgets_def)
    with that show ?thesis unfolding shown ui_show_tabs by auto
  qed
  have no_report: "DownloadButton ''Download Full Report'' report fname mime
      \<notin> set (drop (length (ui w)) (ui (display_results E model name results w)))"
    for report fname mime
    unfolding shown ui_show_tabs by (auto simp: page_widgets_def)
  show ?thesis using shown pages no_report by blast
qed

theorem summary_failure_is_surfaced_witness:
  "one_page \<noteq> []
   \<and> generate_content stub_env (calls idle) ''gemini-pro-vision''
        [Text (template_head @ all_analysis_of one_page @ template_tail)] =
        Inl (Exn ''text-only input is not supported'')
   \<and> ui (display_results stub_env ''gemini-pro-vision'' ''a.pdf'' one_page idle) =
        [Tabs [''Page 1''], StImage ''png1'' ''Page 1'', Markdown ''### AI Analysis'',
         Markdown ''OK-png1'',
         DownloadButton ''Download Analysis'' ''# Analysis of Page 1\<newline>\<newline>OK-png1''
           ''analysis_page_1.txt'' ''text/plain'',
         Markdown ''---'', Markdown ''## Document Summary'',
         StError ''Error generating summary: text-only input is not supported'']"
proof -
  have ne: "one_page \<noteq> []" by (simp add: one_page_def)
  have tabs: "ui (show_tabs one_page idle) =
      [Tabs [''Page 1''], StImage ''png1'' ''Page 1'', Markdown ''### AI Analysis'',
       Markdown ''OK-png1'',
       DownloadButton ''Download Analysis'' ''# Analysis of Page 1\<newline>\<newline>OK-png1''
         ''analysis_page_1.txt'' ''text/plain'']"
    by (simp add: ui_show_tabs page_widgets_def one_page_def idle_def str_nat_Suc_0)
  show ?thesis
    using summary_failure_is_surfaced [of one_page stub_env idle "''gemini-pro-vision''"
        "Exn ''text-only input is not supported''" "''a.pdf''", OF ne stub_summary(2)]
    by (simp add: ne stub_summary tabs)
qed

end
